theory Spec2Isabelle
  imports Main "HOL-Library.Word" "HOL-Library.Multiset"
begin

section \<open>Data model\<close>

text \<open>
  The playground consists of \<^verbatim>\<open>sample.c\<close>, \<^verbatim>\<open>sample.cpp\<close> and \<^verbatim>\<open>sample.h\<close>.

  A C/C++ \<^verbatim>\<open>int\<close> is a 32-bit two's complement value. Where the code does arithmetic
  on one (the counter of the loop in \<^verbatim>\<open>math::advanced::power\<close>) it is a \<open>32 word\<close>,
  read by \<open>sint\<close> and compared by the signed order \<open><s\<close>. The elements of the vector
  handed to \<^verbatim>\<open>process_vector\<close> are only compared and copied, never computed with, so
  they are values of \<open>int\<close> under its usual order, which is the order of \<^verbatim>\<open>operator<\<close>
  on the machine values.
\<close>

type_synonym c_int = "32 word"

text \<open>\<^verbatim>\<open>struct Point\<close> and \<^verbatim>\<open>struct Rectangle\<close> of \<^verbatim>\<open>sample.h\<close>.\<close>

record Point =
  x :: int
  y :: int

record Rectangle =
  top_left :: Point
  bottom_right :: Point

text \<open>The error of the array statistics, named as section 7 of the specification does.\<close>

datatype error = EmptyInputError

section \<open>sample.cpp\<close>

subsection \<open>The template \<^verbatim>\<open>max\<close>\<close>

text \<open>
  \<^verbatim>\<open>template <typename T> T max(T a, T b) { return (a > b) ? a : b; }\<close>

  The template asks one thing of \<^verbatim>\<open>T\<close>: an \<^verbatim>\<open>operator>\<close>. The model takes that
  operator as its first argument.
\<close>

definition max_T :: "('t \<Rightarrow> 't \<Rightarrow> bool) \<Rightarrow> 't \<Rightarrow> 't \<Rightarrow> 't" where
  "max_T gt a b = (if gt a b then a else b)"

text \<open>
  An instance on which a tie can be seen: a value type of a key and a tag,
  \<^verbatim>\<open>struct Keyed { int key; int tag; };\<close>, whose comparison operators look at the key
  alone (\<^verbatim>\<open>a > b\<close> is \<^verbatim>\<open>a.key > b.key\<close>, \<^verbatim>\<open>a >= b\<close> is \<^verbatim>\<open>a.key >= b.key\<close>). The
  template accepts it as it accepts \<^verbatim>\<open>int\<close>; two values with one key and two tags
  compare equal and are not the same value. The built-in \<^verbatim>\<open>double\<close> has such a pair
  too, \<^verbatim>\<open>0.0\<close> and \<^verbatim>\<open>-0.0\<close>.
\<close>

type_synonym keyed = "int \<times> int"

definition key_gt :: "keyed \<Rightarrow> keyed \<Rightarrow> bool" where
  "key_gt a b = (fst a > fst b)"

definition key_ge :: "keyed \<Rightarrow> keyed \<Rightarrow> bool" where
  "key_ge a b = (fst a \<ge> fst b)"

subsection \<open>\<^verbatim>\<open>process_vector\<close>\<close>

text \<open>
  \<^verbatim>\<open>std::sort(vec.begin(), vec.end())\<close> rearranges the whole vector into ascending
  order. The standard leaves the algorithm open and fixes the result: an ascending
  permutation of the input. For \<^verbatim>\<open>int\<close> there is only one such permutation
  (lemma \<open>std_sort_unique\<close> below), so the library's insertion sort stands for it.
\<close>

definition std_sort :: "int list \<Rightarrow> int list" where
  "std_sort vec = sort vec"

text \<open>
  \<^verbatim>\<open>std::unique(first, last)\<close> works in place with two cursors: \<open>dest\<close> is the last
  element kept so far, \<open>i\<close> the next element to read. An element that differs from
  \<open>buf ! dest\<close> is copied to the slot after \<open>dest\<close>; an equal one is skipped. The
  function returns the position after the last element kept; the slots from there
  on keep whatever they held.
\<close>

function unique_loop :: "int list \<Rightarrow> nat \<Rightarrow> nat \<Rightarrow> int list \<times> nat" where
  "unique_loop buf dest i =
     (if i < length buf then
        (if buf ! dest \<noteq> buf ! i
         then unique_loop (buf[Suc dest := buf ! i]) (Suc dest) (Suc i)
         else unique_loop buf dest (Suc i))
      else (buf, Suc dest))"
  by pat_completeness auto
termination
  by (relation "measure (\<lambda>(buf, dest, i). length buf - i)") auto

declare unique_loop.simps [simp del]

definition std_unique :: "int list \<Rightarrow> int list \<times> nat" where
  "std_unique buf = (if buf = [] then (buf, 0) else unique_loop buf 0 1)"

text \<open>\<^verbatim>\<open>vec.erase(first, vec.end())\<close>: the vector keeps the elements before \<open>first\<close>.\<close>

definition erase_to_end :: "int list \<Rightarrow> nat \<Rightarrow> int list" where
  "erase_to_end buf first = take first buf"

text \<open>
  \<^verbatim>\<open>void process_vector(std::vector<int>& vec)\<close> updates the vector through the
  reference; the model returns the new contents, whose length is the new size. The
  loop that follows writes the elements to the console and leaves the vector alone;
  console output is outside the model.
\<close>

definition process_vector :: "int list \<Rightarrow> int list" where
  "process_vector vec =
     (let sorted_vec = std_sort vec;
          (buf, new_end) = std_unique sorted_vec
      in erase_to_end buf new_end)"

subsection \<open>\<^verbatim>\<open>math::advanced::power\<close>\<close>

text \<open>
  \<^verbatim>\<open>
  double power(double base, int exp) {
    double result = 1.0;
    for (int i = 0; i < exp; i++) { result *= base; }
    return result;
  }\<close>

  The type \<^verbatim>\<open>double\<close> is a parameter \<open>'d\<close> of the model, with its multiplication
  \<open>fmul\<close> and the constant \<open>one\<close> for \<^verbatim>\<open>1.0\<close>: whatever the floating-point
  multiplication does, the loop applies it as written. The counter and the exponent
  are machine integers. The increment \<open>i + 1\<close> is word addition; it runs only when
  \<open>i <s exp\<close>, where it cannot wrap, which is what the termination proof uses.
\<close>

function power_loop :: "('d \<Rightarrow> 'd \<Rightarrow> 'd) \<Rightarrow> 'd \<Rightarrow> c_int \<Rightarrow> c_int \<Rightarrow> 'd \<Rightarrow> 'd" where
  "power_loop fmul base exp i result =
     (if i <s exp then power_loop fmul base exp (i + 1) (fmul result base) else result)"
  by pat_completeness auto
termination
proof (relation "measure (\<lambda>(fmul, base, exp, i, result). nat (sint exp - sint i))")
  show "wf (measure (\<lambda>(fmul, base, exp, i, result). nat (sint exp - sint i)))"
    by simp
next
  fix fmul :: "'d \<Rightarrow> 'd \<Rightarrow> 'd" and base result :: 'd and exp i :: c_int
  assume "i <s exp"
  then have lt: "sint i < sint exp"
    by (simp add: word_sless_alt)
  have "sint exp < 2 ^ 31"
    using sint_lt [of exp] by simp
  moreover have "- (2 ^ 31) \<le> sint i"
    using sint_ge [of i] by simp
  ultimately have "- (2 ^ 31) \<le> sint i + 1" and "sint i + 1 < 2 ^ 31"
    using lt by simp_all
  then have "sint (i + 1) = sint i + 1"
    by (simp add: sint_word_ariths signed_take_bit_int_eq_self)
  with lt show "((fmul, base, exp, i + 1, fmul result base), (fmul, base, exp, i, result))
      \<in> measure (\<lambda>(fmul, base, exp, i, result). nat (sint exp - sint i))"
    by simp
qed

declare power_loop.simps [simp del]

definition advanced_power :: "('d \<Rightarrow> 'd \<Rightarrow> 'd) \<Rightarrow> 'd \<Rightarrow> 'd \<Rightarrow> c_int \<Rightarrow> 'd" where
  "advanced_power fmul one base exp = power_loop fmul base exp 0 one"

section \<open>sample.h: functions declared and not defined\<close>

text \<open>
  Modelled from the spec: \<^verbatim>\<open>int find_max(int* arr, int size)\<close> and
  \<^verbatim>\<open>int find_min(int* arr, int size)\<close> are prototypes in \<^verbatim>\<open>sample.h\<close>; no source file
  defines them. Section 4.2 of the specification: a linear scan over all elements
  that returns the maximum (minimum) under the total order, and on an empty buffer
  signals \<open>EmptyInputError\<close>.
\<close>

fun scan_max :: "int \<Rightarrow> int list \<Rightarrow> int" where
  "scan_max best [] = best"
| "scan_max best (v # rest) = scan_max (if best < v then v else best) rest"

fun scan_min :: "int \<Rightarrow> int list \<Rightarrow> int" where
  "scan_min best [] = best"
| "scan_min best (v # rest) = scan_min (if v < best then v else best) rest"

fun find_max :: "int list \<Rightarrow> error + int" where
  "find_max [] = Inl EmptyInputError"
| "find_max (v # rest) = Inr (scan_max v rest)"

fun find_min :: "int list \<Rightarrow> error + int" where
  "find_min [] = Inl EmptyInputError"
| "find_min (v # rest) = Inr (scan_min v rest)"

text \<open>
  Modelled from the spec: \<^verbatim>\<open>double calculate_area(struct Rectangle rect)\<close> is a
  prototype in \<^verbatim>\<open>sample.h\<close>; no source file defines it. Section 4.7 of the
  specification: the product of the absolute values of the two axis spans.
\<close>

definition axis_span :: "int \<Rightarrow> int \<Rightarrow> int" where
  "axis_span from to = \<bar>to - from\<bar>"

definition calculate_area :: "Rectangle \<Rightarrow> int" where
  "calculate_area rect =
     axis_span (x (top_left rect)) (x (bottom_right rect)) *
     axis_span (y (top_left rect)) (y (bottom_right rect))"

section \<open>Properties of the library calls\<close>

text \<open>Any ascending permutation of the input is the result of \<open>std_sort\<close>.\<close>

lemma std_sort_unique:
  assumes "sorted ys" and "mset ys = mset vec"
  shows "std_sort vec = ys"
  unfolding std_sort_def using assms by (simp add: properties_for_sort)

text \<open>
  The invariant of the loop of \<open>std_unique\<close>: the slots up to \<open>dest\<close> are final, and
  what is still to come is the compaction of \<open>buf ! dest\<close> followed by the unread
  part.
\<close>

lemma unique_loop_prefix:
  assumes "dest < i" and "i \<le> length buf"
  shows "(case unique_loop buf dest i of (b, e) \<Rightarrow> take e b) =
     take dest buf @ remdups_adj (buf ! dest # drop i buf)"
  using assms
proof (induction buf dest i rule: unique_loop.induct)
  case (1 buf dest i)
  show ?case
  proof (cases "i < length buf")
    case False
    with "1.prems" have "i = length buf" by simp
    with "1.prems" show ?thesis
      by (subst unique_loop.simps) (simp add: take_Suc_conv_app_nth)
  next
    case inb: True
    then have dr: "drop i buf = buf ! i # drop (Suc i) buf"
      by (simp add: Cons_nth_drop_Suc)
    show ?thesis
    proof (cases "buf ! dest = buf ! i")
      case True
      with inb "1.IH"(2) "1.prems" dr show ?thesis
        by (subst unique_loop.simps) simp
    next
      case False
      let ?b = "buf[Suc dest := buf ! i]"
      from "1.prems" inb have kept: "take (Suc dest) ?b = take dest buf @ [buf ! dest]"
        by (simp add: take_Suc_conv_app_nth)
      from "1.prems" inb have written: "?b ! Suc dest = buf ! i"
        by simp
      from "1.prems" have unread: "drop (Suc i) ?b = drop (Suc i) buf"
        by simp
      from False inb "1.IH"(1) "1.prems"
      have "(case unique_loop ?b (Suc dest) (Suc i) of (b, e) \<Rightarrow> take e b) =
            take (Suc dest) ?b @ remdups_adj (?b ! Suc dest # drop (Suc i) ?b)"
        by simp
      with False inb kept written unread dr show ?thesis
        by (subst unique_loop.simps) simp
    qed
  qed
qed

lemma std_unique_prefix:
  "(case std_unique buf of (b, e) \<Rightarrow> take e b) = remdups_adj buf"
proof (cases buf)
  case Nil
  then show ?thesis by (simp add: std_unique_def)
next
  case (Cons v rest)
  then show ?thesis
    using unique_loop_prefix [of 0 1 buf]
    by (simp add: std_unique_def drop_Suc)
qed

lemma process_vector_eq: "process_vector vec = remdups_adj (sort vec)"
  using std_unique_prefix [of "sort vec"]
  by (simp add: process_vector_def std_sort_def erase_to_end_def split: prod.splits)

lemma remdups_adj_strictly_ascending:
  fixes vs :: "int list"
  shows "sorted vs \<Longrightarrow> sorted_wrt (<) (remdups_adj vs)"
proof (induction vs rule: remdups_adj.induct)
  case (3 a b rest)
  show ?case
  proof (cases "a = b")
    case True
    with 3 show ?thesis by simp
  next
    case False
    with "3.prems" have "a < b" by simp
    with "3.prems" have "\<forall>v\<in>set (b # rest). a < v" by auto
    with False 3 show ?thesis by simp
  qed
qed simp_all

lemma process_vector_strict: "sorted_wrt (<) (process_vector vec)"
  by (simp add: process_vector_eq remdups_adj_strictly_ascending)

lemma process_vector_sorted: "sorted (process_vector vec)"
  by (simp add: process_vector_eq)

lemma process_vector_distinct: "distinct (process_vector vec)"
  using process_vector_strict [of vec] by (simp add: strict_sorted_iff)

lemma process_vector_set: "set (process_vector vec) = set vec"
  by (simp add: process_vector_eq)

lemma distinct_count_list:
  fixes vs :: "int list"
  shows "distinct vs \<Longrightarrow> count_list vs v = (if v \<in> set vs then 1 else 0)"
  by (induction vs) auto

section \<open>The sequence pipeline\<close>

text \<open>
  Claim C1. For every input vector, the vector that \<open>process_vector\<close> leaves behind is
  strictly ascending: at all adjacent positions \<open>i\<close> and \<open>i + 1\<close> the element at \<open>i\<close> is
  strictly less than the element at \<open>i + 1\<close>, so no two neighbours are equal.
\<close>

theorem compact_strictly_ascending:
  "sorted_wrt (<) (process_vector vec) \<and>
   (\<forall>i. Suc i < length (process_vector vec) \<longrightarrow>
        process_vector vec ! i < process_vector vec ! Suc i)"
  using process_vector_strict [of vec]
  by (simp add: sorted_wrt_iff_nth_less)

theorem compact_strictly_ascending_witness:
  "Suc 0 < length (process_vector [3, 1, 3]) \<and>
   process_vector [3, 1, 3] ! 0 < process_vector [3, 1, 3] ! Suc 0"
proof -
  have len: "Suc 0 < length (process_vector [3, 1, 3])"
    by code_simp
  with compact_strictly_ascending [of "[3, 1, 3]"] show ?thesis
    by blast
qed

text \<open>
  Claim C2. For every input vector \<open>vec\<close>, the output of \<open>process_vector\<close> holds exactly
  the distinct values of \<open>vec\<close>: the same set of values, none of them twice; a value
  occurs once in the output when it occurs in \<open>vec\<close> and not at all otherwise.
\<close>

theorem compact_distinct_values:
  "set (process_vector vec) = set vec \<and> distinct (process_vector vec) \<and>
   (\<forall>v. count_list (process_vector vec) v = (if v \<in> set vec then 1 else 0))"
proof -
  from distinct_count_list [OF process_vector_distinct [of vec]]
  have "count_list (process_vector vec) v = (if v \<in> set vec then 1 else 0)" for v
    by (simp add: process_vector_set)
  then show ?thesis
    by (simp add: process_vector_set process_vector_distinct)
qed

text \<open>
  Claim C3. On the vector \<open>[5, 2, 8, 2, 9, 1, 5, 3]\<close> of \<^verbatim>\<open>main\<close>, \<open>process_vector\<close>
  leaves \<open>[1, 2, 3, 5, 8, 9]\<close>, of length 6.
\<close>

theorem compact_sample_run:
  "process_vector [5, 2, 8, 2, 9, 1, 5, 3] = [1, 2, 3, 5, 8, 9] \<and>
   length (process_vector [5, 2, 8, 2, 9, 1, 5, 3]) = 6"
  by code_simp

text \<open>
  Claim C9. \<open>process_vector\<close> is idempotent: a second run leaves the contents and the
  length of the vector as the first run made them.
\<close>

theorem compact_idempotent:
  "process_vector (process_vector vec) = process_vector vec \<and>
   length (process_vector (process_vector vec)) = length (process_vector vec)"
proof -
  have "sort (process_vector vec) = process_vector vec"
    using process_vector_sorted [of vec] by (simp add: sort_key_id_if_sorted)
  moreover have "remdups_adj (process_vector vec) = process_vector vec"
    using process_vector_distinct [of vec] by (rule remdups_adj_distinct)
  ultimately have "process_vector (process_vector vec) = process_vector vec"
    by (simp add: process_vector_eq [of "process_vector vec"])
  then show ?thesis by simp
qed

text \<open>
  Claim C10. On the empty vector \<open>process_vector\<close> runs to its end and leaves the
  vector empty, of length 0: \<open>std_sort\<close> has nothing to move, \<open>std_unique\<close> returns
  the position 0 without entering its loop, and nothing is erased.
\<close>

theorem compact_empty:
  "process_vector [] = [] \<and> length (process_vector []) = 0"
  by (simp add: process_vector_def std_sort_def std_unique_def erase_to_end_def)

section \<open>The generic maximum\<close>

text \<open>
  Claim C4 as the specification states it: \<open>max_T\<close> returns \<open>a\<close> if \<open>a\<close> compares
  greater than or equal to \<open>b\<close>, so that at a tie the first argument is the one
  returned. The code tests \<^verbatim>\<open>a > b\<close> and returns \<open>b\<close> whenever that test fails, a
  tie included. On the keyed values \<open>(5, 1)\<close> and \<open>(5, 2)\<close> the first compares greater
  than or equal to the second, and the second is returned.
\<close>

theorem max_first_at_tie_counterexample:
  "key_ge (5, 1) (5, 2) \<and>
   max_T key_gt (5, 1) (5, 2) = (5, 2) \<and>
   max_T key_gt (5, 1) (5, 2) \<noteq> (if key_ge (5, 1) (5, 2) then (5, 1) else (5, 2))"
  by (simp add: max_T_def key_gt_def key_ge_def)

text \<open>
  Claim C4, amended. For every pair of values \<open>a\<close>, \<open>b\<close> of a type with a comparison,
  \<open>max_T\<close> returns \<open>a\<close> if \<open>a\<close> compares strictly greater than \<open>b\<close>, and \<open>b\<close> otherwise; so
  when the two compare equal the second argument \<open>b\<close> is the one returned. Over a
  total order, where values that compare equal are one value, this is \<open>a\<close> if
  \<open>a \<ge> b\<close> and \<open>b\<close> otherwise.
\<close>

theorem max_returns_second_at_tie:
  fixes a b :: 't and u v :: "'o::linorder"
  shows
  "(gt a b \<longrightarrow> max_T gt a b = a) \<and>
   (\<not> gt a b \<longrightarrow> max_T gt a b = b) \<and>
   max_T (\<lambda>p q. p > q) u v = (if u \<ge> v then u else v)"
  by (auto simp: max_T_def)

theorem max_returns_second_at_tie_witness:
  "key_gt (7, 1) (5, 2) \<and> max_T key_gt (7, 1) (5, 2) = (7, 1) \<and>
   \<not> key_gt (5, 1) (5, 2) \<and> max_T key_gt (5, 1) (5, 2) = (5, 2) \<and>
   max_T (\<lambda>p q. p > q) (10 :: int) 20 = 20 \<and> max_T (\<lambda>p q. p > q) (5 :: int) 5 = 5"
proof -
  have greater: "key_gt (7, 1) (5, 2)"
    by (simp add: key_gt_def)
  have tie: "\<not> key_gt (5, 1) (5, 2)"
    by (simp add: key_gt_def)
  from greater tie
    max_returns_second_at_tie [of key_gt "(7, 1)" "(5, 2)" "10 :: int" 20]
    max_returns_second_at_tie [of key_gt "(5, 1)" "(5, 2)" "5 :: int" 5]
  show ?thesis
    by simp
qed

section \<open>Power\<close>

text \<open>Where the loop test holds, the increment of the counter does not wrap.\<close>

lemma sint_succ_below:
  fixes i e :: c_int
  assumes "i <s e"
  shows "sint (i + 1) = sint i + 1"
proof -
  from assms have lt: "sint i < sint e"
    by (simp add: word_sless_alt)
  have "sint e < 2 ^ 31"
    using sint_lt [of e] by simp
  moreover have "- (2 ^ 31) \<le> sint i"
    using sint_ge [of i] by simp
  ultimately have "- (2 ^ 31) \<le> sint i + 1" and "sint i + 1 < 2 ^ 31"
    using lt by simp_all
  then show ?thesis
    by (simp add: sint_word_ariths signed_take_bit_int_eq_self)
qed

text \<open>
  From counter \<open>i\<close> the loop multiplies by \<open>base\<close> once for every integer from \<open>i\<close> up
  to \<open>exp\<close>, and not at all when \<open>exp\<close> is not above \<open>i\<close>.
\<close>

lemma power_loop_iterates:
  "power_loop fmul base exp i result =
     ((\<lambda>r. fmul r base) ^^ nat (sint exp - sint i)) result"
proof (induction fmul base exp i result rule: power_loop.induct)
  case (1 fmul base exp i result)
  show ?case
  proof (cases "i <s exp")
    case True
    then have lt: "sint i < sint exp"
      by (simp add: word_sless_alt)
    then have n: "nat (sint exp - sint i) = Suc (nat (sint exp - (sint i + 1)))"
      by simp
    from "1.IH" [OF True] sint_succ_below [OF True]
    have "power_loop fmul base exp (i + 1) (fmul result base) =
          ((\<lambda>r. fmul r base) ^^ nat (sint exp - (sint i + 1))) (fmul result base)"
      by simp
    with True show ?thesis
      by (subst power_loop.simps) (simp add: n funpow_Suc_right del: funpow.simps)
  next
    case False
    then have "nat (sint exp - sint i) = 0"
      by (simp add: word_sless_alt)
    with False show ?thesis
      by (subst power_loop.simps) simp
  qed
qed

lemma advanced_power_iterates:
  "advanced_power fmul one base exp = ((\<lambda>r. fmul r base) ^^ nat (sint exp)) one"
  by (simp add: advanced_power_def power_loop_iterates)

lemma funpow_times_power:
  fixes b :: "'a::monoid_mult"
  shows "((\<lambda>r. r * b) ^^ n) 1 = b ^ n"
  by (induction n) (simp_all add: power_commutes)

lemma exact_doubling:
  fixes fmul :: "'d \<Rightarrow> 'd \<Rightarrow> 'd" and dbl :: "nat \<Rightarrow> 'd"
  assumes "\<forall>k<m. fmul (dbl (2 ^ k)) (dbl 2) = dbl (2 ^ Suc k)" and "n \<le> m"
  shows "((\<lambda>r. fmul r (dbl 2)) ^^ n) (dbl 1) = dbl (2 ^ n)"
  using assms(2)
proof (induction n)
  case 0
  show ?case by simp
next
  case (Suc n)
  then have "n < m" by simp
  with assms(1) have "fmul (dbl (2 ^ n)) (dbl 2) = dbl (2 ^ Suc n)" by blast
  with Suc show ?case by simp
qed

text \<open>
  Claim C5. For every base and every exponent \<open>\<ge> 0\<close>, \<open>advanced_power\<close> returns the
  base multiplied in \<open>exp\<close> times, starting from \<open>one\<close>; with a multiplication that is
  exact (a monoid) this is the base raised to the power \<open>exp\<close>. For the exponent 0 the
  result is \<open>one\<close>, whatever the base. And \<^verbatim>\<open>power(2, 10)\<close> is 1024: here \<open>dbl n\<close> is the
  \<^verbatim>\<open>double\<close> that holds the integer \<open>n\<close>, and all that is asked of the floating-point
  multiplication is that it doubles the powers of two below 1024 exactly, as a binary
  format does.
\<close>

theorem power_nonnegative_exponent:
  fixes fmul :: "'d \<Rightarrow> 'd \<Rightarrow> 'd" and dbl :: "nat \<Rightarrow> 'd" and b :: "'a::monoid_mult"
  shows
  "(0 \<le>s exp \<longrightarrow>
      advanced_power fmul one base exp = ((\<lambda>r. fmul r base) ^^ nat (sint exp)) one) \<and>
   (0 \<le>s exp \<longrightarrow> advanced_power (*) 1 b exp = b ^ nat (sint exp)) \<and>
   advanced_power fmul one base 0 = one \<and>
   ((\<forall>k<10. fmul (dbl (2 ^ k)) (dbl 2) = dbl (2 ^ Suc k)) \<longrightarrow>
      advanced_power fmul (dbl 1) (dbl 2) 10 = dbl 1024)"
proof (intro conjI impI)
  show "advanced_power fmul one base exp = ((\<lambda>r. fmul r base) ^^ nat (sint exp)) one"
    by (rule advanced_power_iterates)
  show "advanced_power (*) 1 b exp = b ^ nat (sint exp)"
    by (simp add: advanced_power_iterates funpow_times_power)
  show "advanced_power fmul one base 0 = one"
    by (simp add: advanced_power_iterates)
  assume "\<forall>k<10. fmul (dbl (2 ^ k)) (dbl 2) = dbl (2 ^ Suc k)"
  then have "((\<lambda>r. fmul r (dbl 2)) ^^ 10) (dbl 1) = dbl 1024"
    using exact_doubling [of 10 fmul dbl 10] by simp
  moreover have "nat (sint (10 :: c_int)) = 10"
    by simp
  ultimately show "advanced_power fmul (dbl 1) (dbl 2) 10 = dbl 1024"
    by (simp only: advanced_power_iterates)
qed

theorem power_nonnegative_exponent_witness:
  "(0 :: c_int) \<le>s 3 \<and>
   advanced_power (*) (1 :: int) 5 3 = ((1 * 5) * 5) * 5 \<and>
   advanced_power (*) (1 :: int) 5 3 = 5 ^ 3 \<and>
   advanced_power (*) (int 1) (int 2) 10 = int 1024"
proof -
  have nonneg: "(0 :: c_int) \<le>s 3"
    by (simp add: word_sle_eq)
  have exact: "\<forall>k<10. int (2 ^ k) * int 2 = int (2 ^ Suc k)"
    by simp
  from power_nonnegative_exponent [of 3 "(*)" "1 :: int" 5 "5 :: int" int] nonneg exact
  show ?thesis
    by (simp add: numeral_3_eq_3)
qed

text \<open>
  Claim C8. For every base and every negative exponent, \<open>advanced_power\<close> returns
  \<open>one\<close> (the \<^verbatim>\<open>1.0\<close> of the code): the loop test \<open>0 <s exp\<close> fails at once and the
  body never runs. With the termination proof of \<open>power_loop\<close> the function is total
  over all exponents.
\<close>

theorem power_negative_exponent:
  "exp <s 0 \<Longrightarrow> advanced_power fmul one base exp = one"
  by (simp add: advanced_power_def word_sless_alt power_loop_iterates)

theorem power_negative_exponent_witness:
  "(- 3 :: c_int) <s 0 \<and> advanced_power (*) (1 :: int) 2 (- 3) = 1"
proof -
  have neg: "(- 3 :: c_int) <s 0"
    by (simp add: word_sless_alt)
  from neg power_negative_exponent [OF neg, of "(*)" "1 :: int" 2] show ?thesis
    by simp
qed

section \<open>Array statistics\<close>

lemma scan_max_greatest:
  "best \<le> scan_max best vs \<and> (\<forall>v\<in>set vs. v \<le> scan_max best vs)"
  by (induction vs arbitrary: best) force+

lemma scan_max_member: "scan_max best vs \<in> set (best # vs)"
  by (induction vs arbitrary: best) auto

lemma scan_min_least:
  "scan_min best vs \<le> best \<and> (\<forall>v\<in>set vs. scan_min best vs \<le> v)"
  by (induction vs arbitrary: best) force+

lemma scan_min_member: "scan_min best vs \<in> set (best # vs)"
  by (induction vs arbitrary: best) auto

text \<open>
  Claim C6. On an empty buffer \<open>find_max\<close> and \<open>find_min\<close> signal \<open>EmptyInputError\<close>,
  not a value; on a buffer that is not empty each returns an element of the buffer,
  the greatest and the least one.
\<close>

theorem statistics_empty_and_extremal:
  "find_max [] = Inl EmptyInputError \<and>
   find_min [] = Inl EmptyInputError \<and>
   (buf \<noteq> [] \<longrightarrow>
      (\<exists>m. find_max buf = Inr m \<and> m \<in> set buf \<and> (\<forall>v\<in>set buf. v \<le> m)) \<and>
      (\<exists>m. find_min buf = Inr m \<and> m \<in> set buf \<and> (\<forall>v\<in>set buf. m \<le> v)))"
proof (intro conjI impI)
  assume "buf \<noteq> []"
  then obtain v rest where buf: "buf = v # rest"
    by (cases buf) auto
  show "\<exists>m. find_max buf = Inr m \<and> m \<in> set buf \<and> (\<forall>v\<in>set buf. v \<le> m)"
    using scan_max_greatest [of v rest] scan_max_member [of v rest]
    by (simp add: buf)
  show "\<exists>m. find_min buf = Inr m \<and> m \<in> set buf \<and> (\<forall>v\<in>set buf. m \<le> v)"
    using scan_min_least [of v rest] scan_min_member [of v rest]
    by (simp add: buf)
qed simp_all

theorem statistics_empty_and_extremal_witness:
  "[3, 1, 4] \<noteq> ([] :: int list) \<and>
   find_max [3, 1, 4] = Inr 4 \<and> find_min [3, 1, 4] = Inr 1 \<and>
   (\<exists>m. find_max [3, 1, 4] = Inr m \<and> m \<in> set [3, 1, 4] \<and> 3 \<le> m \<and> 1 \<le> m \<and> 4 \<le> m) \<and>
   (\<exists>m. find_min [3, 1, 4] = Inr m \<and> m \<in> set [3, 1, 4] \<and> m \<le> 3 \<and> m \<le> 1 \<and> m \<le> 4)"
  using statistics_empty_and_extremal [of "[3, 1, 4]"]
  by simp

section \<open>Geometry\<close>

text \<open>
  Claim C7. For every rectangle the area is the product of the absolute values of
  the two axis spans; it is not negative, in whichever order the two corners come
  (exchanging them leaves it as it was); between the corners (0, 0) and (4, 3) it
  is 12.
\<close>

theorem area_absolute_spans:
  "calculate_area rect =
     \<bar>x (bottom_right rect) - x (top_left rect)\<bar> * \<bar>y (bottom_right rect) - y (top_left rect)\<bar> \<and>
   0 \<le> calculate_area rect \<and>
   calculate_area \<lparr>top_left = bottom_right rect, bottom_right = top_left rect\<rparr> =
     calculate_area rect \<and>
   calculate_area \<lparr>top_left = \<lparr>x = 0, y = 0\<rparr>, bottom_right = \<lparr>x = 4, y = 3\<rparr>\<rparr> = 12"
  by (simp add: calculate_area_def axis_span_def abs_minus_commute)

end
